theory Spec2Isabelle
  imports Main
begin

section \<open>The backend, as far as the builder of ssa/stmt\_builder.go uses it\<close>

text \<open>
  The builder writes into an LLVM function body through the Go binding
  (package llvm). Backend objects are heap objects reached through handles;
  the model keeps instructions in a store indexed by their identity and each
  physical block as the list of the identities of its instructions. A handle
  of type llvm.Value is null, a named global symbol (a function or a global
  variable), an instruction, or a constant.
\<close>

datatype Value = Null | Global string | Inst nat | Const int

text \<open>
  Types: a Go type is a basic (named) type or a tuple of types, the type of a
  multi-result instruction. The backend type \<open>t.ll\<close> of a type is determined
  by the type.
\<close>

datatype GoType = Basic string | Tuple "GoType list"

datatype LLType = LL GoType

definition ll :: "GoType \<Rightarrow> LLType" where
  "ll t = LL t"

datatype Opcode = OpRet | OpBr | OpUnreachable | OpCall | OpPHI | OpExtractValue | OpOther nat

text \<open>
  Instructions. All but the last are the ones the builder creates; \<open>IOther\<close>
  stands for any further instruction found in a block (store, load, ...),
  with its opcode number and its operands. An aggregate return is kept as one
  instruction carrying the packed values.
\<close>

datatype Instr =
    ICall Value "Value list"
  | IBr nat
  | ICondBr Value nat nat
  | IRetVoid
  | IRet Value
  | IAggregateRet "Value list"
  | IUnreachable
  | IPHI LLType "(Value \<times> nat) list"
  | IExtractValue Value nat
  | IOther nat "Value list"

fun InstructionOpcode :: "Instr \<Rightarrow> Opcode" where
  "InstructionOpcode (ICall f args) = OpCall"
| "InstructionOpcode (IBr t) = OpBr"
| "InstructionOpcode (ICondBr c t e) = OpBr"
| "InstructionOpcode IRetVoid = OpRet"
| "InstructionOpcode (IRet v) = OpRet"
| "InstructionOpcode (IAggregateRet vs) = OpRet"
| "InstructionOpcode IUnreachable = OpUnreachable"
| "InstructionOpcode (IPHI t inc) = OpPHI"
| "InstructionOpcode (IExtractValue v i) = OpExtractValue"
| "InstructionOpcode (IOther k ops) = OpOther k"

text \<open>
  The operand list of an instruction. A call lists its arguments first and
  the called value last, so a call with exactly one operand is a call without
  arguments whose operand 0 is the callee. Only the operands of calls are
  ever read by the builder.
\<close>

fun Operands :: "Instr \<Rightarrow> Value list" where
  "Operands (ICall f args) = args @ [f]"
| "Operands (IBr t) = []"
| "Operands (ICondBr c t e) = [c]"
| "Operands IRetVoid = []"
| "Operands (IRet v) = [v]"
| "Operands (IAggregateRet vs) = vs"
| "Operands IUnreachable = []"
| "Operands (IPHI t inc) = map fst inc"
| "Operands (IExtractValue v i) = [v]"
| "Operands (IOther k ops) = ops"

record instruction =
  iparent :: "nat option"
  iname :: string
  ibody :: Instr

text \<open>
  The insertion point of an llvm.Builder: not set, at the end of a physical
  block, or before an instruction of a physical block.
\<close>

datatype InsertPt = NoInsertPt | EndOf nat | Before nat nat

text \<open>
  Failures. A Go panic carries its message. \<open>Fault\<close> is the backend
  dereferencing a null or dangling handle: the binding passes the handle to
  the C library unchecked, and the process does not survive it.
\<close>

datatype error = GoPanic string | Fault

section \<open>The data of the builder\<close>

record Expr =
  impl :: Value
  Type :: GoType

text \<open>
  A Function is a pointer; \<open>faddr\<close> is its address, which is what the
  comparisons \<open>b.Func != blk.fn\<close> compare, and \<open>fresults\<close> the result
  tuple of its signature (\<open>raw.Type.(*types.Signature).Results()\<close>).
\<close>

record aFunction =
  faddr :: nat
  fresults :: "GoType list"

record aBasicBlock =
  first :: nat
  last_bb :: nat
  fn :: aFunction
  idx :: int

text \<open>
  \<open>Package.rtFunc\<close> is not part of this file; the package is taken with its
  table of runtime functions.
\<close>

record aPackage =
  rtFunc :: "string \<Rightarrow> Expr"

text \<open>The lines written to the log when the package flag debugInstr is set.\<close>

datatype LogLine =
    LogBlock int
  | LogPanic Value
  | LogCall string Expr "Expr list"
  | LogReturn "Value list"
  | LogExtract Value int
  | LogJump int
  | LogIf Value int int

text \<open>
  The state the operations work on: the package flag and the log, the store
  of logical blocks (a BasicBlock is a pointer into \<open>heap\<close>), the backend
  function body with the insertion point of \<open>b.impl\<close>, and the fields
  blk, Func and Pkg of the builder. The field Prog is never read in this file
  and is left out, as is Dispose, which only releases \<open>b.impl\<close>.
\<close>

record state =
  debugInstr :: bool
  logged :: "LogLine list"
  heap :: "nat \<Rightarrow> aBasicBlock"
  instrs :: "nat \<Rightarrow> instruction option"
  blocks :: "nat \<Rightarrow> nat list"
  nextId :: nat
  insertPt :: InsertPt
  blk :: "nat option"
  Func :: aFunction
  Pkg :: aPackage

section \<open>Backend operations\<close>

definition FirstInstruction :: "state \<Rightarrow> nat \<Rightarrow> Value" where
  "FirstInstruction s bb = (case blocks s bb of [] \<Rightarrow> Null | n # ns \<Rightarrow> Inst n)"

definition LastInstruction :: "state \<Rightarrow> nat \<Rightarrow> Value" where
  "LastInstruction s bb = (if blocks s bb = [] then Null else Inst (last (blocks s bb)))"

definition SetInsertPointAtEnd :: "nat \<Rightarrow> state \<Rightarrow> state" where
  "SetInsertPointAtEnd bb s = s\<lparr>insertPt := EndOf bb\<rparr>"

text \<open>Positioning before an instruction reads the block the instruction is in.\<close>

definition SetInsertPointBefore :: "Value \<Rightarrow> state \<Rightarrow> error + state" where
  "SetInsertPointBefore v s =
     (case v of
        Inst n \<Rightarrow>
          (case instrs s n of
             None \<Rightarrow> Inl Fault
           | Some ins \<Rightarrow>
               (case iparent ins of
                  None \<Rightarrow> Inl Fault
                | Some bb \<Rightarrow> Inr (s\<lparr>insertPt := Before bb n\<rparr>)))
      | _ \<Rightarrow> Inl Fault)"

fun insertBefore :: "nat \<Rightarrow> nat \<Rightarrow> nat list \<Rightarrow> nat list" where
  "insertBefore k n [] = [n]"
| "insertBefore k n (x # xs) = (if x = k then n # x # xs else x # insertBefore k n xs)"

text \<open>
  Creating an instruction: it gets a fresh identity and no name and is linked
  into the block at the insertion point, which stays where it is. With no
  insertion point the instruction is created detached.
\<close>

definition InsertInstr :: "Instr \<Rightarrow> state \<Rightarrow> state" where
  "InsertInstr i s =
     (let n = nextId s in
      case insertPt s of
        NoInsertPt \<Rightarrow>
          s\<lparr>instrs := (instrs s)(n \<mapsto> \<lparr>iparent = None, iname = [], ibody = i\<rparr>),
            nextId := Suc n\<rparr>
      | EndOf bb \<Rightarrow>
          s\<lparr>instrs := (instrs s)(n \<mapsto> \<lparr>iparent = Some bb, iname = [], ibody = i\<rparr>),
            blocks := (blocks s)(bb := blocks s bb @ [n]),
            nextId := Suc n\<rparr>
      | Before bb k \<Rightarrow>
          s\<lparr>instrs := (instrs s)(n \<mapsto> \<lparr>iparent = Some bb, iname = [], ibody = i\<rparr>),
            blocks := (blocks s)(bb := insertBefore k n (blocks s bb)),
            nextId := Suc n\<rparr>)"

definition Name :: "state \<Rightarrow> Value \<Rightarrow> error + string" where
  "Name s v =
     (case v of
        Null \<Rightarrow> Inl Fault
      | Global nm \<Rightarrow> Inr nm
      | Inst k \<Rightarrow> (case instrs s k of None \<Rightarrow> Inl Fault | Some ins \<Rightarrow> Inr (iname ins))
      | Const c \<Rightarrow> Inr [])"

definition HasSuffix :: "string \<Rightarrow> string \<Rightarrow> bool" where
  "HasSuffix s suffix =
     (length s \<ge> length suffix \<and> drop (length s - length suffix) s = suffix)"

section \<open>SetBlockEx and the scan behind afterInit\<close>

definition AtEnd :: int where "AtEnd = 0"
definition AtStart :: int where "AtStart = 1"
definition BeforeLast :: int where "BeforeLast = 2"
definition afterInit :: int where "afterInit = 3"

text \<open>
  notInit: a call with exactly one operand whose name ends in ".init" is an
  initializer call; everything else is not. On the null value, and on a
  handle to an instruction that does not exist, InstructionOpcode faults; a
  value that is not an instruction has no call opcode.
\<close>

definition notInit :: "state \<Rightarrow> Value \<Rightarrow> error + bool" where
  "notInit s instr =
     (case instr of
        Null \<Rightarrow> Inl Fault
      | Inst n \<Rightarrow>
          (case instrs s n of
             None \<Rightarrow> Inl Fault
           | Some ins \<Rightarrow>
               (case InstructionOpcode (ibody ins) of
                  OpCall \<Rightarrow>
                    (if length (Operands (ibody ins)) = 1
                     then (case Name s (Operands (ibody ins) ! 0) of
                             Inl e \<Rightarrow> Inl e
                           | Inr nm \<Rightarrow> Inr (\<not> HasSuffix nm ''.init''))
                     else Inr True)
                | _ \<Rightarrow> Inr True))
      | _ \<Rightarrow> Inr True)"

text \<open>
  The loop of instrAfterInit. Its argument is the list of the instructions
  after the current one: NextInstruction moves to the head of that list, or
  to the null value when the list is empty, where notInit faults.
\<close>

fun instrAfterInit_loop :: "state \<Rightarrow> nat list \<Rightarrow> error + Value" where
  "instrAfterInit_loop s [] =
     (case notInit s Null of
        Inl e \<Rightarrow> Inl e
      | Inr b \<Rightarrow> if b then Inr Null else Inl Fault)"
| "instrAfterInit_loop s (n # rest) =
     (case notInit s (Inst n) of
        Inl e \<Rightarrow> Inl e
      | Inr b \<Rightarrow> if b then Inr (Inst n) else instrAfterInit_loop s rest)"

text \<open>
  instrAfterInit starts at the first instruction of the block and moves to the
  next instruction before it tests anything, so the first instruction is
  passed over without being examined. On an empty block FirstInstruction is
  null and NextInstruction faults on it.
\<close>

definition instrAfterInit :: "state \<Rightarrow> nat \<Rightarrow> error + Value" where
  "instrAfterInit s bb =
     (case FirstInstruction s bb of
        Inst n \<Rightarrow> instrAfterInit_loop s (tl (blocks s bb))
      | _ \<Rightarrow> Inl Fault)"

definition SetBlockEx :: "state \<Rightarrow> nat \<Rightarrow> int \<Rightarrow> bool \<Rightarrow> error + state" where
  "SetBlockEx s b pos setBlk =
     (if faddr (Func s) \<noteq> faddr (fn (heap s b)) then Inl (GoPanic ''mismatched function'')
      else
        (case
           (if pos = AtEnd then Inr (SetInsertPointAtEnd (last_bb (heap s b)) s)
            else if pos = AtStart then
              SetInsertPointBefore (FirstInstruction s (first (heap s b))) s
            else if pos = BeforeLast then
              SetInsertPointBefore (LastInstruction s (last_bb (heap s b))) s
            else if pos = afterInit then
              (case instrAfterInit s (first (heap s b)) of
                 Inl e \<Rightarrow> Inl e
               | Inr v \<Rightarrow> SetInsertPointBefore v s)
            else Inl (GoPanic ''SetBlockEx: invalid pos''))
         of
           Inl e \<Rightarrow> Inl e
         | Inr s' \<Rightarrow> Inr (if setBlk then s'\<lparr>blk := Some b\<rparr> else s')))"

definition writeLog :: "LogLine \<Rightarrow> state \<Rightarrow> state" where
  "writeLog l s = (if debugInstr s then s\<lparr>logged := logged s @ [l]\<rparr> else s)"

definition SetBlock :: "state \<Rightarrow> nat \<Rightarrow> error + state" where
  "SetBlock s b = SetBlockEx (writeLog (LogBlock (idx (heap s b))) s) b AtEnd True"

definition Parent :: "state \<Rightarrow> nat \<Rightarrow> aFunction" where
  "Parent s p = fn (heap s p)"

definition Index :: "state \<Rightarrow> nat \<Rightarrow> int" where
  "Index s p = idx (heap s p)"

section \<open>Emission\<close>

definition CreateUnreachable :: "state \<Rightarrow> state" where
  "CreateUnreachable s = InsertInstr IUnreachable s"

definition CreateRetVoid :: "state \<Rightarrow> state" where
  "CreateRetVoid s = InsertInstr IRetVoid s"

definition CreateRet :: "Value \<Rightarrow> state \<Rightarrow> state" where
  "CreateRet v s = InsertInstr (IRet v) s"

definition CreateAggregateRet :: "Value list \<Rightarrow> state \<Rightarrow> state" where
  "CreateAggregateRet vs s = InsertInstr (IAggregateRet vs) s"

definition CreateBr :: "nat \<Rightarrow> state \<Rightarrow> state" where
  "CreateBr t s = InsertInstr (IBr t) s"

definition CreateCondBr :: "Value \<Rightarrow> nat \<Rightarrow> nat \<Rightarrow> state \<Rightarrow> state" where
  "CreateCondBr c t e s = InsertInstr (ICondBr c t e) s"

definition CreatePHI :: "LLType \<Rightarrow> state \<Rightarrow> state" where
  "CreatePHI t s = InsertInstr (IPHI t []) s"

text \<open>
  Modelled from the spec: \<open>Builder.Call\<close> is defined outside this file. The
  spec describes it as call emission, "emit a call with these arguments": one
  call instruction to the callee with the arguments in order, at the
  insertion point. The callers in this file drop its result.
\<close>

definition Call :: "state \<Rightarrow> Expr \<Rightarrow> Expr list \<Rightarrow> state" where
  "Call s f args = InsertInstr (ICall (impl f) (map impl args)) s"

definition Panic :: "state \<Rightarrow> Expr \<Rightarrow> state" where
  "Panic s v =
     CreateUnreachable
       (Call (writeLog (LogPanic (impl v)) s) (rtFunc (Pkg s) ''TracePanic'') [v])"

definition Unreachable :: "state \<Rightarrow> state" where
  "Unreachable s = CreateUnreachable s"

definition Go :: "state \<Rightarrow> Expr \<Rightarrow> Expr list \<Rightarrow> state" where
  "Go s f args = Call (writeLog (LogCall ''Go'' f args) s) f args"

text \<open>
  \<open>checkExpr\<close> is defined outside this file and is taken as a parameter
  \<open>chk\<close> of the operations that use it: given the builder state, a value and
  a type it yields the value coerced to the type, or fails.
\<close>

text \<open>
  Modelled from the spec: \<open>llvmParams\<close> is defined outside this file. The
  spec has the values packed "in declared order, each element independently
  coerced to its corresponding declared type": the value at position i is
  coerced to the declared type at position base + i, and a failing coercion
  fails the whole. The spec does not say what happens to a value that has no
  declared type at its position; the model packs it as it is.
\<close>

fun llvmParams ::
  "(state \<Rightarrow> Expr \<Rightarrow> GoType \<Rightarrow> error + Expr) \<Rightarrow> state \<Rightarrow> nat \<Rightarrow> Expr list \<Rightarrow> GoType list
     \<Rightarrow> error + Value list" where
  "llvmParams chk s base [] params = Inr []"
| "llvmParams chk s base (v # vs) params =
     (case (if base < length params then chk s v (params ! base) else Inr v) of
        Inl e \<Rightarrow> Inl e
      | Inr c \<Rightarrow>
          (case llvmParams chk s (Suc base) vs params of
             Inl e \<Rightarrow> Inl e
           | Inr r \<Rightarrow> Inr (impl c # r)))"

text \<open>
  Return. With one value, \<open>Results().At(0)\<close> panics when the function
  declares no result.
\<close>

definition Return ::
  "(state \<Rightarrow> Expr \<Rightarrow> GoType \<Rightarrow> error + Expr) \<Rightarrow> state \<Rightarrow> Expr list \<Rightarrow> error + state" where
  "Return chk s0 results =
     (let s = writeLog (LogReturn (map impl results)) s0 in
      case results of
        [] \<Rightarrow> Inr (CreateRetVoid s)
      | [r] \<Rightarrow>
          (case fresults (Func s) of
             [] \<Rightarrow> Inl (GoPanic ''index out of range'')
           | t # ts \<Rightarrow>
               (case chk s r t of
                  Inl e \<Rightarrow> Inl e
                | Inr ret \<Rightarrow> Inr (CreateRet (impl ret) s)))
      | _ \<Rightarrow>
          (case llvmParams chk s 0 results (fresults (Func s)) of
             Inl e \<Rightarrow> Inl e
           | Inr vs \<Rightarrow> Inr (CreateAggregateRet vs s)))"

text \<open>
  Modelled from the spec: \<open>Builder.getField\<close> is defined outside this file.
  The spec has Extract yield the component at the index of a value of a
  multi-result type, the index within the arity of that type, and abort with
  a message otherwise. The model emits one extraction instruction at the
  insertion point and yields its value at the type of the component.
\<close>

definition getField :: "state \<Rightarrow> Expr \<Rightarrow> int \<Rightarrow> error + Expr \<times> state" where
  "getField s x i =
     (case Type x of
        Tuple ts \<Rightarrow>
          (if 0 \<le> i \<and> i < int (length ts)
           then Inr (\<lparr>impl = Inst (nextId s), Type = ts ! nat i\<rparr>,
                     InsertInstr (IExtractValue (impl x) (nat i)) s)
           else Inl (GoPanic ''getField: index out of range''))
      | Basic nm \<Rightarrow> Inl (GoPanic ''getField: not a tuple''))"

definition Extract :: "state \<Rightarrow> Expr \<Rightarrow> int \<Rightarrow> error + Expr \<times> state" where
  "Extract s x i = getField (writeLog (LogExtract (impl x) i) s) x i"

definition Jump :: "state \<Rightarrow> nat \<Rightarrow> error + state" where
  "Jump s jmpb =
     (if faddr (Func s) \<noteq> faddr (fn (heap s jmpb)) then Inl (GoPanic ''mismatched function'')
      else Inr (CreateBr (first (heap s jmpb)) (writeLog (LogJump (idx (heap s jmpb))) s)))"

definition If_stmt :: "state \<Rightarrow> Expr \<Rightarrow> nat \<Rightarrow> nat \<Rightarrow> error + state" where
  "If_stmt s cond thenb elseb =
     (if faddr (Func s) \<noteq> faddr (fn (heap s thenb)) \<or> faddr (Func s) \<noteq> faddr (fn (heap s elseb))
      then Inl (GoPanic ''mismatched function'')
      else Inr (CreateCondBr (impl cond) (first (heap s thenb)) (first (heap s elseb))
                  (writeLog (LogIf (impl cond) (idx (heap s thenb)) (idx (heap s elseb))) s)))"

section \<open>Phi nodes\<close>

definition llvmPredBlocks :: "state \<Rightarrow> nat list \<Rightarrow> nat list" where
  "llvmPredBlocks s preds = map (\<lambda>v. last_bb (heap s v)) preds"

text \<open>
  The backend's AddIncoming appends the pairs of values and blocks to the
  incoming list of a phi node; on anything but a phi node it faults.
\<close>

definition Value_AddIncoming :: "Value \<Rightarrow> Value list \<Rightarrow> nat list \<Rightarrow> state \<Rightarrow> error + state" where
  "Value_AddIncoming p vals bs s =
     (case p of
        Inst n \<Rightarrow>
          (case instrs s n of
             None \<Rightarrow> Inl Fault
           | Some ins \<Rightarrow>
               (case ibody ins of
                  IPHI t inc \<Rightarrow>
                    Inr (s\<lparr>instrs := (instrs s)(n \<mapsto> ins\<lparr>ibody := IPHI t (inc @ zip vals bs)\<rparr>)\<rparr>)
                | _ \<Rightarrow> Inl Fault))
      | _ \<Rightarrow> Inl Fault)"

text \<open>
  The loop of AddIncoming over preds. The callback is code of the caller: it
  may emit instructions and may fail, so it takes the state and returns it.
\<close>

fun AddIncoming_vals ::
  "(nat \<Rightarrow> nat \<Rightarrow> state \<Rightarrow> error + Expr \<times> state) \<Rightarrow> nat \<Rightarrow> nat list \<Rightarrow> state
     \<Rightarrow> error + Value list \<times> state" where
  "AddIncoming_vals f iblk [] s = Inr ([], s)"
| "AddIncoming_vals f iblk (b # rest) s =
     (case f iblk b s of
        Inl e \<Rightarrow> Inl e
      | Inr (x, s1) \<Rightarrow>
          (case AddIncoming_vals f (Suc iblk) rest s1 of
             Inl e \<Rightarrow> Inl e
           | Inr (vs, s2) \<Rightarrow> Inr (impl x # vs, s2)))"

definition AddIncoming ::
  "state \<Rightarrow> Expr \<Rightarrow> nat list \<Rightarrow> (nat \<Rightarrow> nat \<Rightarrow> state \<Rightarrow> error + Expr \<times> state) \<Rightarrow> error + state" where
  "AddIncoming s p preds f =
     (let bs = llvmPredBlocks s preds in
      case AddIncoming_vals f 0 preds s of
        Inl e \<Rightarrow> Inl e
      | Inr (vals, s1) \<Rightarrow> Value_AddIncoming (impl p) vals bs s1)"

definition Phi :: "state \<Rightarrow> GoType \<Rightarrow> Expr \<times> state" where
  "Phi s t = (\<lparr>impl = Inst (nextId s), Type = t\<rparr>, CreatePHI (ll t) s)"

section \<open>Notions used in the statements\<close>

text \<open>
  An initializer call in the words of the specification: a call instruction
  with exactly one operand whose referenced symbol name ends with ".init".
\<close>

definition isInitCall :: "state \<Rightarrow> nat \<Rightarrow> bool" where
  "isInitCall s n =
     (case instrs s n of
        None \<Rightarrow> False
      | Some ins \<Rightarrow>
          InstructionOpcode (ibody ins) = OpCall \<and>
          length (Operands (ibody ins)) = 1 \<and>
          (case Name s (Operands (ibody ins) ! 0) of
             Inl e \<Rightarrow> False
           | Inr nm \<Rightarrow> HasSuffix nm ''.init''))"

text \<open>
  A physical block is linked when each instruction in its list exists and
  names the block as its parent, as the backend keeps it.
\<close>

definition linked :: "state \<Rightarrow> nat \<Rightarrow> bool" where
  "linked s bb =
     list_all (\<lambda>n. case instrs s n of None \<Rightarrow> False | Some ins \<Rightarrow> iparent ins = Some bb)
       (blocks s bb)"

section \<open>Sequences of builder operations\<close>

text \<open>
  The operations of the builder as data, and the run of a list of them that
  stops at the first failure, as a panic stops the compilation. The results of
  Extract and Phi go to the caller and are not part of the state.
\<close>

datatype op =
    SetBlockEx_op nat int bool
  | SetBlock_op nat
  | Panic_op Expr
  | Unreachable_op
  | Go_op Expr "Expr list"
  | Return_op "Expr list"
  | Extract_op Expr int
  | Jump_op nat
  | If_op Expr nat nat
  | Phi_op GoType
  | AddIncoming_op Expr "nat list" "nat \<Rightarrow> nat \<Rightarrow> state \<Rightarrow> error + Expr \<times> state"

fun step :: "(state \<Rightarrow> Expr \<Rightarrow> GoType \<Rightarrow> error + Expr) \<Rightarrow> op \<Rightarrow> state \<Rightarrow> error + state" where
  "step chk (SetBlockEx_op b pos setBlk) s = SetBlockEx s b pos setBlk"
| "step chk (SetBlock_op b) s = SetBlock s b"
| "step chk (Panic_op v) s = Inr (Panic s v)"
| "step chk Unreachable_op s = Inr (Unreachable s)"
| "step chk (Go_op f args) s = Inr (Go s f args)"
| "step chk (Return_op results) s = Return chk s results"
| "step chk (Extract_op x i) s = (case Extract s x i of Inl e \<Rightarrow> Inl e | Inr (r, s') \<Rightarrow> Inr s')"
| "step chk (Jump_op b) s = Jump s b"
| "step chk (If_op c t e) s = If_stmt s c t e"
| "step chk (Phi_op t) s = Inr (snd (Phi s t))"
| "step chk (AddIncoming_op p preds f) s = AddIncoming s p preds f"

fun run :: "(state \<Rightarrow> Expr \<Rightarrow> GoType \<Rightarrow> error + Expr) \<Rightarrow> op list \<Rightarrow> state \<Rightarrow> error + state" where
  "run chk [] s = Inr s"
| "run chk (x # xs) s = (case step chk x s of Inl e \<Rightarrow> Inl e | Inr s' \<Rightarrow> run chk xs s')"

text \<open>
  What a callback of AddIncoming may be required to leave alone: it is code
  of the caller, not of the builder.
\<close>

definition keeps_heap :: "(nat \<Rightarrow> nat \<Rightarrow> state \<Rightarrow> error + Expr \<times> state) \<Rightarrow> bool" where
  "keeps_heap f = (\<forall>i b t x t'. f i b t = Inr (x, t') \<longrightarrow> heap t' = heap t)"

definition keeps_blk :: "(nat \<Rightarrow> nat \<Rightarrow> state \<Rightarrow> error + Expr \<times> state) \<Rightarrow> bool" where
  "keeps_blk f = (\<forall>i b t x t'. f i b t = Inr (x, t') \<longrightarrow> blk t' = blk t)"

fun callback_of :: "op \<Rightarrow> (nat \<Rightarrow> nat \<Rightarrow> state \<Rightarrow> error + Expr \<times> state) option" where
  "callback_of (AddIncoming_op p preds f) = Some f"
| "callback_of _ = None"

definition callbacks_keep_heap :: "op list \<Rightarrow> bool" where
  "callbacks_keep_heap ops =
     list_all (\<lambda>x. case callback_of x of None \<Rightarrow> True | Some f \<Rightarrow> keeps_heap f) ops"

section \<open>Reading the backend\<close>

text \<open>
  The blocks after a run of new instructions was put at the insertion point;
  the parent that an instruction created at the insertion point gets; the
  insertion point names an instruction created earlier; the incoming edges of
  a phi node.
\<close>

definition placedIn :: "InsertPt \<Rightarrow> nat list \<Rightarrow> (nat \<Rightarrow> nat list) \<Rightarrow> (nat \<Rightarrow> nat list)" where
  "placedIn pt new bls =
     (case pt of
        NoInsertPt \<Rightarrow> bls
      | EndOf bb \<Rightarrow> bls(bb := bls bb @ new)
      | Before bb k \<Rightarrow>
          bls(bb := takeWhile (\<lambda>x. x \<noteq> k) (bls bb) @ new @ dropWhile (\<lambda>x. x \<noteq> k) (bls bb)))"

definition parentAt :: "InsertPt \<Rightarrow> nat option" where
  "parentAt pt = (case pt of NoInsertPt \<Rightarrow> None | EndOf bb \<Rightarrow> Some bb | Before bb k \<Rightarrow> Some bb)"

definition cursor_exists :: "state \<Rightarrow> bool" where
  "cursor_exists s = (case insertPt s of Before bb k \<Rightarrow> k < nextId s | _ \<Rightarrow> True)"

definition incoming :: "state \<Rightarrow> nat \<Rightarrow> (Value \<times> nat) list" where
  "incoming s n =
     (case instrs s n of
        None \<Rightarrow> []
      | Some ins \<Rightarrow> (case ibody ins of IPHI t inc \<Rightarrow> inc | _ \<Rightarrow> []))"

section \<open>A concrete function body\<close>

text \<open>
  Two functions, logical blocks that each consist of the physical block of the
  same number (block 9 belongs to the second function), and the instructions
  of a package initializer: the store to the guard, two calls of initializers
  of imported packages, a branch, and a phi node in block 1.
\<close>

definition ex_F :: aFunction where
  "ex_F = \<lparr>faddr = 1, fresults = [Basic ''int'', Basic ''error'']\<rparr>"

definition ex_G :: aFunction where
  "ex_G = \<lparr>faddr = 2, fresults = []\<rparr>"

definition ex_heap :: "nat \<Rightarrow> aBasicBlock" where
  "ex_heap p = \<lparr>first = p, last_bb = p, fn = (if p = 9 then ex_G else ex_F), idx = int p\<rparr>"

definition ex_instrs :: "nat \<Rightarrow> instruction option" where
  "ex_instrs =
     [10 \<mapsto> \<lparr>iparent = Some 0, iname = [],
             ibody = IOther 33 [Const 1, Global ''main.init$guard'']\<rparr>,
      11 \<mapsto> \<lparr>iparent = Some 0, iname = [], ibody = ICall (Global ''fmt.init'') []\<rparr>,
      12 \<mapsto> \<lparr>iparent = Some 0, iname = [], ibody = ICall (Global ''os.init'') []\<rparr>,
      13 \<mapsto> \<lparr>iparent = Some 0, iname = [], ibody = IBr 2\<rparr>,
      14 \<mapsto> \<lparr>iparent = Some 1, iname = [], ibody = IPHI (LL (Basic ''int'')) []\<rparr>]"

definition ex_state :: "nat list \<Rightarrow> state" where
  "ex_state b0 =
     \<lparr>debugInstr = True, logged = [], heap = ex_heap, instrs = ex_instrs,
      blocks = (\<lambda>bb. if bb = 0 then b0 else if bb = 1 then [14] else []),
      nextId = 20, insertPt = NoInsertPt, blk = None, Func = ex_F,
      Pkg = \<lparr>rtFunc = (\<lambda>nm. \<lparr>impl = Global nm, Type = Basic ''func''\<rparr>)\<rparr>\<rparr>"

text \<open>
  A coercion that retypes the value, the builder positioned before the branch
  of block 0, some values, the phi node of block 1, a callback, a value of a
  tuple type and a sequence of operations.
\<close>

definition ex_chk :: "state \<Rightarrow> Expr \<Rightarrow> GoType \<Rightarrow> error + Expr" where
  "ex_chk s v t = Inr (v\<lparr>Type := t\<rparr>)"

definition ex_at :: state where
  "ex_at = (ex_state [10, 11, 12, 13])\<lparr>insertPt := Before 0 13, blk := Some 0\<rparr>"

definition ex_val :: "int \<Rightarrow> Expr" where
  "ex_val k = \<lparr>impl = Const k, Type = Basic ''int''\<rparr>"

definition ex_phi :: Expr where
  "ex_phi = \<lparr>impl = Inst 14, Type = Basic ''int''\<rparr>"

definition ex_callback :: "nat \<Rightarrow> nat \<Rightarrow> state \<Rightarrow> error + Expr \<times> state" where
  "ex_callback i b s = Inr (ex_val (int i + 40), s)"

definition ex_tuple :: Expr where
  "ex_tuple = \<lparr>impl = Inst 12, Type = Tuple [Basic ''int'', Basic ''bool'']\<rparr>"

definition ex_ops :: "op list" where
  "ex_ops =
     [SetBlock_op 0, Panic_op (ex_val 7), SetBlockEx_op 0 BeforeLast False,
      Go_op (ex_val 8) [ex_val 9], AddIncoming_op ex_phi [0, 1] ex_callback,
      SetBlock_op 1, Jump_op 2, Return_op []]"

section \<open>Basic facts\<close>

lemma HasSuffix_iff: "HasSuffix s suf \<longleftrightarrow> (\<exists>p. s = p @ suf)"
  unfolding HasSuffix_def
proof
  assume a: "length suf \<le> length s \<and> drop (length s - length suf) s = suf"
  have "s = take (length s - length suf) s @ drop (length s - length suf) s" by simp
  with a have "s = take (length s - length suf) s @ suf" by simp
  then show "\<exists>p. s = p @ suf" ..
next
  assume "\<exists>p. s = p @ suf"
  then obtain p where "s = p @ suf" ..
  then show "length suf \<le> length s \<and> drop (length s - length suf) s = suf" by simp
qed

lemma notInit_isInitCall: "isInitCall s n \<Longrightarrow> notInit s (Inst n) = Inr False"
  by (auto simp: isInitCall_def notInit_def split: option.splits sum.splits Opcode.splits)

lemma loop_skips_inits:
  "list_all (isInitCall s) inits \<Longrightarrow>
   instrAfterInit_loop s (inits @ rest) = instrAfterInit_loop s rest"
  by (induction inits) (simp_all add: notInit_isInitCall)

lemma loop_all_inits:
  "list_all (isInitCall s) inits \<Longrightarrow> instrAfterInit_loop s inits = Inl Fault"
  using loop_skips_inits [of s inits "[]"] by (simp add: notInit_def)

lemma linked_parent:
  "linked s bb \<Longrightarrow> m \<in> set (blocks s bb) \<Longrightarrow>
   SetInsertPointBefore (Inst m) s = Inr (s\<lparr>insertPt := Before bb m\<rparr>)"
  by (auto simp: linked_def list_all_iff SetInsertPointBefore_def split: option.splits)

lemma ex_sel:
  "blocks (ex_state b0) 0 = b0"
  "heap (ex_state b0) = ex_heap"
  "Func (ex_state b0) = ex_F"
  "instrs (ex_state b0) = ex_instrs"
  "first (ex_heap p) = p"
  "last_bb (ex_heap p) = p"
  "fn (ex_heap p) = (if p = 9 then ex_G else ex_F)"
  by (simp_all add: ex_state_def ex_heap_def)

lemma ex_isInitCall: "isInitCall (ex_state b0) 11" "isInitCall (ex_state b0) 12"
  by (simp_all add: isInitCall_def ex_state_def ex_instrs_def Name_def HasSuffix_def)

lemma ex_notInit:
  "notInit (ex_state b0) (Inst 10) = Inr True"
  "notInit (ex_state b0) (Inst 13) = Inr True"
  by (simp_all add: notInit_def ex_state_def ex_instrs_def)

section \<open>The insertion point after the initializer calls\<close>

text \<open>
  C1 (amended). Let the first physical block of a logical block of the
  builder's function consist of a first instruction, then a run of initializer
  calls, then an instruction M that notInit classifies as not an initializer
  call. Then SetBlockEx with afterInit puts the insertion point exactly before
  M, and sets the current block when asked to. The first instruction is never
  examined: when it is the first of N initializer calls (N at least 1) the
  insertion point is before the instruction that follows the N calls, as the
  claim has it; when the block starts with an instruction that is not an
  initializer call (N = 0) the insertion point is not before that instruction
  but before the first later instruction that is not an initializer call.
\<close>

theorem afterInit_lands_before_first_later_non_init:
  assumes fn_ok: "faddr (Func s) = faddr (fn (heap s b))"
    and blk: "blocks s (first (heap s b)) = i0 # inits @ m # rest"
    and lk: "linked s (first (heap s b))"
    and inits: "list_all (isInitCall s) inits"
    and m: "notInit s (Inst m) = Inr True"
  shows "SetBlockEx s b afterInit setBlk =
           Inr (s\<lparr>insertPt := Before (first (heap s b)) m,
                  blk := if setBlk then Some b else blk s\<rparr>)"
proof -
  have "instrAfterInit s (first (heap s b)) = instrAfterInit_loop s (inits @ m # rest)"
    by (simp add: instrAfterInit_def FirstInstruction_def blk)
  also have "\<dots> = instrAfterInit_loop s (m # rest)"
    using inits by (rule loop_skips_inits)
  also have "\<dots> = Inr (Inst m)"
    by (simp add: m)
  finally have scan: "instrAfterInit s (first (heap s b)) = Inr (Inst m)" .
  have "m \<in> set (blocks s (first (heap s b)))" by (simp add: blk)
  with lk have pos: "SetInsertPointBefore (Inst m) s =
      Inr (s\<lparr>insertPt := Before (first (heap s b)) m\<rparr>)"
    by (rule linked_parent)
  show ?thesis
    by (simp add: SetBlockEx_def fn_ok scan pos AtEnd_def AtStart_def BeforeLast_def afterInit_def)
qed

text \<open>
  The theorem at a block of two initializer calls followed by a branch: the
  insertion point is before the branch.
\<close>

theorem afterInit_lands_before_first_later_non_init_witness:
  "SetBlockEx (ex_state [11, 12, 13]) 0 afterInit True =
     Inr ((ex_state [11, 12, 13])\<lparr>insertPt := Before 0 13, blk := Some 0\<rparr>)"
proof -
  let ?s = "ex_state [11, 12, 13]"
  have a: "faddr (Func ?s) = faddr (fn (heap ?s 0))"
    by (simp add: ex_sel)
  have b: "blocks ?s (first (heap ?s 0)) = 11 # [12] @ 13 # []"
    by (simp add: ex_sel)
  have c: "linked ?s (first (heap ?s 0))"
    by (simp add: linked_def ex_sel) (simp add: ex_instrs_def)
  have d: "list_all (isInitCall ?s) [12]"
    by (simp add: ex_isInitCall)
  show ?thesis
    using afterInit_lands_before_first_later_non_init [OF a b c d ex_notInit(2), of True]
    by (simp add: ex_sel)
qed

text \<open>
  The claim as stated fails for N = 0. The block holds the store to the guard
  (not an initializer call) and a branch: afterInit puts the insertion point
  before the branch, AtStart puts it before the store.
\<close>

theorem afterInit_no_initializers_counterexample:
  "notInit (ex_state [10, 13]) (Inst 10) = Inr True \<and>
   SetBlockEx (ex_state [10, 13]) 0 afterInit False =
     Inr ((ex_state [10, 13])\<lparr>insertPt := Before 0 13\<rparr>) \<and>
   SetBlockEx (ex_state [10, 13]) 0 AtStart False =
     Inr ((ex_state [10, 13])\<lparr>insertPt := Before 0 10\<rparr>) \<and>
   SetBlockEx (ex_state [10, 13]) 0 afterInit False \<noteq> SetBlockEx (ex_state [10, 13]) 0 AtStart False"
  by (simp add: SetBlockEx_def instrAfterInit_def FirstInstruction_def SetInsertPointBefore_def
      notInit_def AtEnd_def AtStart_def BeforeLast_def afterInit_def
      ex_state_def ex_heap_def ex_instrs_def ex_F_def)

text \<open>
  C6 (amended). When every instruction after the first instruction of the
  block is an initializer call, and also when there is none after the first
  or the block is empty, the scan of afterInit ends, but it ends on the null
  value past the last instruction, where the backend faults: SetBlockEx yields
  no insertion point.
\<close>

theorem afterInit_faults_without_later_non_init:
  assumes fn_ok: "faddr (Func s) = faddr (fn (heap s b))"
    and inits: "list_all (isInitCall s) (tl (blocks s (first (heap s b))))"
  shows "SetBlockEx s b afterInit setBlk = Inl Fault"
proof -
  have "instrAfterInit s (first (heap s b)) = Inl Fault"
    using loop_all_inits [OF inits]
    by (cases "blocks s (first (heap s b))") (simp_all add: instrAfterInit_def FirstInstruction_def)
  then show ?thesis
    by (simp add: SetBlockEx_def fn_ok AtEnd_def AtStart_def BeforeLast_def afterInit_def)
qed

theorem afterInit_faults_without_later_non_init_witness:
  "SetBlockEx (ex_state [10, 11, 12]) 0 afterInit True = Inl Fault"
proof -
  let ?s = "ex_state [10, 11, 12]"
  have a: "faddr (Func ?s) = faddr (fn (heap ?s 0))"
    by (simp add: ex_sel)
  have b: "list_all (isInitCall ?s) (tl (blocks ?s (first (heap ?s 0))))"
    by (simp add: ex_sel ex_isInitCall)
  show ?thesis
    using afterInit_faults_without_later_non_init [OF a b] .
qed

text \<open>
  The claim as stated fails: on the store followed by two initializer calls,
  and on the store alone, SetBlockEx with afterInit does not return a
  positioned builder.
\<close>

theorem afterInit_only_initializers_counterexample:
  "isInitCall (ex_state [10, 11, 12]) 11 \<and> isInitCall (ex_state [10, 11, 12]) 12 \<and>
   SetBlockEx (ex_state [10, 11, 12]) 0 afterInit True = Inl Fault \<and>
   SetBlockEx (ex_state [10]) 0 afterInit True = Inl Fault"
  by (simp add: SetBlockEx_def instrAfterInit_def FirstInstruction_def SetInsertPointBefore_def
      notInit_def AtEnd_def AtStart_def BeforeLast_def afterInit_def Name_def HasSuffix_def
      isInitCall_def ex_state_def ex_heap_def ex_instrs_def ex_F_def)

section \<open>What the operations leave unchanged\<close>

lemma InsertInstr_frame:
  "heap (InsertInstr i s) = heap s"
  "blk (InsertInstr i s) = blk s"
  "Func (InsertInstr i s) = Func s"
  "Pkg (InsertInstr i s) = Pkg s"
  "debugInstr (InsertInstr i s) = debugInstr s"
  "logged (InsertInstr i s) = logged s"
  "insertPt (InsertInstr i s) = insertPt s"
  by (simp_all add: InsertInstr_def Let_def split: InsertPt.splits)

lemma writeLog_frame:
  "heap (writeLog l s) = heap s"
  "blk (writeLog l s) = blk s"
  "Func (writeLog l s) = Func s"
  "Pkg (writeLog l s) = Pkg s"
  "debugInstr (writeLog l s) = debugInstr s"
  "instrs (writeLog l s) = instrs s"
  "blocks (writeLog l s) = blocks s"
  "nextId (writeLog l s) = nextId s"
  "insertPt (writeLog l s) = insertPt s"
  by (simp_all add: writeLog_def)

lemma SetInsertPointBefore_frame:
  assumes "SetInsertPointBefore v s = Inr s'"
  shows "heap s' = heap s" "blk s' = blk s" "Func s' = Func s"
  using assms
  by (auto simp: SetInsertPointBefore_def split: Value.splits option.splits)

lemma SetBlockEx_frame:
  assumes "SetBlockEx s b pos setBlk = Inr s'"
  shows "heap s' = heap s" "blk s' = (if setBlk then Some b else blk s)" "Func s' = Func s"
  using assms
  by (auto simp: SetBlockEx_def SetInsertPointAtEnd_def
           dest: SetInsertPointBefore_frame split: if_splits sum.splits)

lemma SetBlock_frame:
  assumes "SetBlock s b = Inr s'"
  shows "heap s' = heap s" "blk s' = Some b" "Func s' = Func s"
  using SetBlockEx_frame [OF assms [unfolded SetBlock_def]]
  by (simp_all add: writeLog_frame)

lemma Call_frame:
  "heap (Call s f args) = heap s" "blk (Call s f args) = blk s" "Func (Call s f args) = Func s"
  by (simp_all add: Call_def InsertInstr_frame)

lemma Panic_frame:
  "heap (Panic s v) = heap s" "blk (Panic s v) = blk s" "Func (Panic s v) = Func s"
  by (simp_all add: Panic_def CreateUnreachable_def InsertInstr_frame Call_frame writeLog_frame)

lemma Unreachable_frame:
  "heap (Unreachable s) = heap s" "blk (Unreachable s) = blk s" "Func (Unreachable s) = Func s"
  by (simp_all add: Unreachable_def CreateUnreachable_def InsertInstr_frame)

lemma Go_frame:
  "heap (Go s f args) = heap s" "blk (Go s f args) = blk s" "Func (Go s f args) = Func s"
  by (simp_all add: Go_def Call_frame writeLog_frame)

lemma Return_frame:
  assumes "Return chk s results = Inr s'"
  shows "heap s' = heap s" "blk s' = blk s" "Func s' = Func s"
  using assms
  by (auto simp: Return_def Let_def CreateRetVoid_def CreateRet_def CreateAggregateRet_def
                 InsertInstr_frame writeLog_frame
           split: list.splits sum.splits)

lemma Extract_frame:
  assumes "Extract s x i = Inr (r, s')"
  shows "heap s' = heap s" "blk s' = blk s" "Func s' = Func s"
  using assms
  by (auto simp: Extract_def getField_def InsertInstr_frame writeLog_frame
           split: GoType.splits if_splits)

lemma Jump_frame:
  assumes "Jump s b = Inr s'"
  shows "heap s' = heap s" "blk s' = blk s" "Func s' = Func s"
  using assms
  by (auto simp: Jump_def CreateBr_def InsertInstr_frame writeLog_frame split: if_splits)

lemma If_stmt_frame:
  assumes "If_stmt s c t e = Inr s'"
  shows "heap s' = heap s" "blk s' = blk s" "Func s' = Func s"
  using assms
  by (auto simp: If_stmt_def CreateCondBr_def InsertInstr_frame writeLog_frame split: if_splits)

lemma Phi_frame:
  "heap (snd (Phi s t)) = heap s" "blk (snd (Phi s t)) = blk s" "Func (snd (Phi s t)) = Func s"
  by (simp_all add: Phi_def CreatePHI_def InsertInstr_frame)

lemma Value_AddIncoming_frame:
  assumes "Value_AddIncoming p vals bs s = Inr s'"
  shows "heap s' = heap s" "blk s' = blk s" "Func s' = Func s"
  using assms
  by (auto simp: Value_AddIncoming_def split: Value.splits option.splits Instr.splits)

lemma AddIncoming_vals_heap:
  "keeps_heap f \<Longrightarrow> AddIncoming_vals f k preds s = Inr (vs, s') \<Longrightarrow> heap s' = heap s"
proof (induction preds arbitrary: k s vs)
  case Nil
  then show ?case by simp
next
  case (Cons b rest)
  from Cons.prems(2) obtain x s1 ws where
    f: "f k b s = Inr (x, s1)" and r: "AddIncoming_vals f (Suc k) rest s1 = Inr (ws, s')"
    by (auto split: sum.splits prod.splits)
  from Cons.prems(1) f have "heap s1 = heap s" by (auto simp: keeps_heap_def)
  moreover from Cons.IH [OF Cons.prems(1) r] have "heap s' = heap s1" .
  ultimately show ?case by simp
qed

lemma AddIncoming_vals_blk:
  "keeps_blk f \<Longrightarrow> AddIncoming_vals f k preds s = Inr (vs, s') \<Longrightarrow> blk s' = blk s"
proof (induction preds arbitrary: k s vs)
  case Nil
  then show ?case by simp
next
  case (Cons b rest)
  from Cons.prems(2) obtain x s1 ws where
    f: "f k b s = Inr (x, s1)" and r: "AddIncoming_vals f (Suc k) rest s1 = Inr (ws, s')"
    by (auto split: sum.splits prod.splits)
  from Cons.prems(1) f have "blk s1 = blk s" by (auto simp: keeps_blk_def)
  moreover from Cons.IH [OF Cons.prems(1) r] have "blk s' = blk s1" .
  ultimately show ?case by simp
qed

lemma AddIncoming_heap:
  assumes k: "keeps_heap f" and a: "AddIncoming s p preds f = Inr s'"
  shows "heap s' = heap s"
proof -
  from a obtain vals s1 where
    v: "AddIncoming_vals f 0 preds s = Inr (vals, s1)"
    and w: "Value_AddIncoming (impl p) vals (llvmPredBlocks s preds) s1 = Inr s'"
    by (auto simp: AddIncoming_def Let_def split: sum.splits prod.splits)
  from AddIncoming_vals_heap [OF k v] Value_AddIncoming_frame(1) [OF w]
  show ?thesis by simp
qed

lemma AddIncoming_blk:
  assumes k: "keeps_blk f" and a: "AddIncoming s p preds f = Inr s'"
  shows "blk s' = blk s"
proof -
  from a obtain vals s1 where
    v: "AddIncoming_vals f 0 preds s = Inr (vals, s1)"
    and w: "Value_AddIncoming (impl p) vals (llvmPredBlocks s preds) s1 = Inr s'"
    by (auto simp: AddIncoming_def Let_def split: sum.splits prod.splits)
  from AddIncoming_vals_blk [OF k v] Value_AddIncoming_frame(2) [OF w]
  show ?thesis by simp
qed

lemma step_heap:
  assumes "step chk x s = Inr s'"
    and "case callback_of x of None \<Rightarrow> True | Some f \<Rightarrow> keeps_heap f"
  shows "heap s' = heap s"
proof (cases x)
  case (SetBlockEx_op b pos setBlk)
  with assms show ?thesis by (auto dest: SetBlockEx_frame(1))
next
  case (SetBlock_op b)
  with assms show ?thesis by (auto dest: SetBlock_frame(1))
next
  case (Panic_op v)
  with assms show ?thesis by (auto simp: Panic_frame)
next
  case Unreachable_op
  with assms show ?thesis by (auto simp: Unreachable_frame)
next
  case (Go_op f args)
  with assms show ?thesis by (auto simp: Go_frame)
next
  case (Return_op results)
  with assms show ?thesis by (auto dest: Return_frame(1))
next
  case (Extract_op e i)
  with assms show ?thesis by (auto split: sum.splits dest: Extract_frame(1))
next
  case (Jump_op b)
  with assms show ?thesis by (auto dest: Jump_frame(1))
next
  case (If_op c t e)
  with assms show ?thesis by (auto dest: If_stmt_frame(1))
next
  case (Phi_op t)
  with assms show ?thesis by (auto simp: Phi_frame)
next
  case (AddIncoming_op p preds f)
  with assms show ?thesis by (auto dest: AddIncoming_heap)
qed

lemma run_heap:
  "run chk ops s = Inr s' \<Longrightarrow> callbacks_keep_heap ops \<Longrightarrow> heap s' = heap s"
proof (induction ops arbitrary: s)
  case Nil
  then show ?case by simp
next
  case (Cons x xs)
  from Cons.prems(1) obtain s1 where
    st: "step chk x s = Inr s1" and rn: "run chk xs s1 = Inr s'"
    by (auto split: sum.splits)
  from Cons.prems(2) have cx: "case callback_of x of None \<Rightarrow> True | Some f \<Rightarrow> keeps_heap f"
    and cxs: "callbacks_keep_heap xs"
    by (simp_all add: callbacks_keep_heap_def)
  from step_heap [OF st cx] Cons.IH [OF rn cxs] show ?case by simp
qed

lemma ex_at_sel:
  "heap ex_at = ex_heap" "Func ex_at = ex_F" "blk ex_at = Some 0" "instrs ex_at = ex_instrs"
  "insertPt ex_at = Before 0 13" "debugInstr ex_at = True" "nextId ex_at = 20"
  by (simp_all add: ex_at_def ex_state_def)

lemma ex_funs: "faddr ex_F = 1" "faddr ex_G = 2"
  "fresults ex_F = [Basic ''int'', Basic ''error'']"
  by (simp_all add: ex_F_def ex_G_def)

lemma ex_instrs_at:
  "ex_instrs 14 = Some \<lparr>iparent = Some 1, iname = [], ibody = IPHI (LL (Basic ''int'')) []\<rparr>"
  "ex_instrs 13 = Some \<lparr>iparent = Some 0, iname = [], ibody = IBr 2\<rparr>"
  by (simp_all add: ex_instrs_def)

lemma ex_callback_keeps: "keeps_heap ex_callback" "keeps_blk ex_callback"
  by (auto simp: keeps_heap_def keeps_blk_def ex_callback_def)

lemma ex_chk_sel: "ex_chk s v t = Inr (v\<lparr>Type := t\<rparr>)"
  by (simp add: ex_chk_def)

text \<open>
  C9. Across any sequence of builder operations that runs to its end, with
  callbacks that leave the logical blocks alone, Index and Parent of every
  logical block are what they were: no operation of the builder writes the
  idx or the fn field of a logical block.
\<close>

theorem block_identity_stable:
  assumes "run chk ops s = Inr s'" and "callbacks_keep_heap ops"
  shows "Index s' p = Index s p \<and> Parent s' p = Parent s p"
  using run_heap [OF assms] by (simp add: Index_def Parent_def)

text \<open>
  The theorem on a sequence that positions, emits into blocks 0 and 1, wires
  a phi node and returns.
\<close>

theorem block_identity_stable_witness:
  "(case run ex_chk ex_ops (ex_state [10, 13]) of
      Inl e \<Rightarrow> False
    | Inr s' \<Rightarrow>
        Index s' 0 = Index (ex_state [10, 13]) 0 \<and>
        Parent s' 0 = Parent (ex_state [10, 13]) 0)"
proof -
  have "\<exists>s'. run ex_chk ex_ops (ex_state [10, 13]) = Inr s'"
    by (simp add: ex_ops_def SetBlock_def SetBlockEx_def Jump_def Return_def
        AddIncoming_def llvmPredBlocks_def Value_AddIncoming_def ex_callback_def ex_phi_def
        SetInsertPointAtEnd_def SetInsertPointBefore_def LastInstruction_def
        Panic_def Go_def Call_def CreateUnreachable_def CreateBr_def CreateRetVoid_def
        InsertInstr_def writeLog_def
        AtEnd_def AtStart_def BeforeLast_def afterInit_def
        ex_state_def ex_heap_def ex_instrs_def ex_F_def ex_G_def ex_val_def)
  then obtain s' where r: "run ex_chk ex_ops (ex_state [10, 13]) = Inr s'" ..
  have c: "callbacks_keep_heap ex_ops"
    by (simp add: callbacks_keep_heap_def ex_ops_def ex_callback_keeps)
  from block_identity_stable [OF r c, of 0] show ?thesis
    by (simp add: r)
qed

text \<open>
  C10. Jump, If, Return, Panic, Unreachable and Extract leave the current
  block of the builder as it is, and so do Go, Phi, and AddIncoming with a
  callback that leaves it alone. SetBlockEx leaves it as it is when setBlk is
  false and makes the block current when setBlk is true, as SetBlock does.
\<close>

theorem current_block_changed_only_by_SetBlock:
  "(Jump s j = Inr s1 \<longrightarrow> blk s1 = blk s) \<and>
   (If_stmt s c t e = Inr s2 \<longrightarrow> blk s2 = blk s) \<and>
   (Return chk s rs = Inr s3 \<longrightarrow> blk s3 = blk s) \<and>
   blk (Panic s v) = blk s \<and>
   blk (Unreachable s) = blk s \<and>
   (Extract s x i = Inr (r, s4) \<longrightarrow> blk s4 = blk s) \<and>
   blk (Go s g args) = blk s \<and>
   blk (snd (Phi s ty)) = blk s \<and>
   (keeps_blk f \<and> AddIncoming s p preds f = Inr s5 \<longrightarrow> blk s5 = blk s) \<and>
   (SetBlockEx s b pos False = Inr s6 \<longrightarrow> blk s6 = blk s) \<and>
   (SetBlockEx s b pos True = Inr s7 \<longrightarrow> blk s7 = Some b) \<and>
   (SetBlock s b = Inr s8 \<longrightarrow> blk s8 = Some b)"
proof (intro conjI impI)
  show "blk (Panic s v) = blk s" by (rule Panic_frame)
  show "blk (Unreachable s) = blk s" by (rule Unreachable_frame)
  show "blk (Go s g args) = blk s" by (rule Go_frame)
  show "blk (snd (Phi s ty)) = blk s" by (rule Phi_frame)
next
  assume "Jump s j = Inr s1" then show "blk s1 = blk s" by (rule Jump_frame)
next
  assume "If_stmt s c t e = Inr s2" then show "blk s2 = blk s" by (rule If_stmt_frame)
next
  assume "Return chk s rs = Inr s3" then show "blk s3 = blk s" by (rule Return_frame)
next
  assume "Extract s x i = Inr (r, s4)" then show "blk s4 = blk s" by (rule Extract_frame)
next
  assume "keeps_blk f \<and> AddIncoming s p preds f = Inr s5"
  then show "blk s5 = blk s" by (auto dest: AddIncoming_blk)
next
  assume "SetBlockEx s b pos False = Inr s6"
  from SetBlockEx_frame(2) [OF this] show "blk s6 = blk s" by simp
next
  assume "SetBlockEx s b pos True = Inr s7"
  from SetBlockEx_frame(2) [OF this] show "blk s7 = Some b" by simp
next
  assume "SetBlock s b = Inr s8" then show "blk s8 = Some b" by (rule SetBlock_frame)
qed

theorem current_block_changed_only_by_SetBlock_witness:
  "(case Jump ex_at 2 of Inl e \<Rightarrow> False | Inr s' \<Rightarrow> blk s' = Some 0) \<and>
   (case If_stmt ex_at (ex_val 1) 2 3 of Inl e \<Rightarrow> False | Inr s' \<Rightarrow> blk s' = Some 0) \<and>
   (case Return ex_chk ex_at [ex_val 5] of Inl e \<Rightarrow> False | Inr s' \<Rightarrow> blk s' = Some 0) \<and>
   blk (Panic ex_at (ex_val 7)) = Some 0 \<and>
   blk (Unreachable ex_at) = Some 0 \<and>
   (case Extract ex_at ex_tuple 1 of Inl e \<Rightarrow> False | Inr (r, s') \<Rightarrow> blk s' = Some 0) \<and>
   blk (Go ex_at (ex_val 8) [ex_val 9]) = Some 0 \<and>
   blk (snd (Phi ex_at (Basic ''int''))) = Some 0 \<and>
   (case AddIncoming ex_at ex_phi [0, 1] ex_callback of
      Inl e \<Rightarrow> False | Inr s' \<Rightarrow> blk s' = Some 0) \<and>
   (case SetBlockEx ex_at 1 AtStart False of Inl e \<Rightarrow> False | Inr s' \<Rightarrow> blk s' = Some 0) \<and>
   (case SetBlockEx ex_at 1 AtStart True of Inl e \<Rightarrow> False | Inr s' \<Rightarrow> blk s' = Some 1) \<and>
   (case SetBlock ex_at 1 of Inl e \<Rightarrow> False | Inr s' \<Rightarrow> blk s' = Some 1)"
proof -
  have "\<exists>s'. Jump ex_at 2 = Inr s'"
    by (simp add: Jump_def ex_at_sel ex_sel)
  then obtain s1 where s1: "Jump ex_at 2 = Inr s1" ..
  have "\<exists>s'. If_stmt ex_at (ex_val 1) 2 3 = Inr s'"
    by (simp add: If_stmt_def ex_at_sel ex_sel)
  then obtain s2 where s2: "If_stmt ex_at (ex_val 1) 2 3 = Inr s2" ..
  have "\<exists>s'. Return ex_chk ex_at [ex_val 5] = Inr s'"
    by (simp add: Return_def Let_def writeLog_frame ex_at_sel ex_funs ex_chk_sel)
  then obtain s3 where s3: "Return ex_chk ex_at [ex_val 5] = Inr s3" ..
  have "\<exists>r s'. Extract ex_at ex_tuple 1 = Inr (r, s')"
    by (simp add: Extract_def getField_def ex_tuple_def)
  then obtain r s4 where s4: "Extract ex_at ex_tuple 1 = Inr (r, s4)" by blast
  have "\<exists>s'. AddIncoming ex_at ex_phi [0, 1] ex_callback = Inr s'"
    by (simp add: AddIncoming_def Value_AddIncoming_def ex_callback_def ex_phi_def
        ex_at_sel ex_instrs_at)
  then obtain s5 where s5: "AddIncoming ex_at ex_phi [0, 1] ex_callback = Inr s5" ..
  have "\<exists>s'. SetBlockEx ex_at 1 AtStart False = Inr s'"
    by (simp add: SetBlockEx_def FirstInstruction_def SetInsertPointBefore_def
        AtEnd_def AtStart_def ex_at_sel ex_sel ex_instrs_at)
       (simp add: ex_at_def ex_state_def ex_instrs_at)
  then obtain s6 where s6: "SetBlockEx ex_at 1 AtStart False = Inr s6" ..
  have "\<exists>s'. SetBlockEx ex_at 1 AtStart True = Inr s'"
    by (simp add: SetBlockEx_def FirstInstruction_def SetInsertPointBefore_def
        AtEnd_def AtStart_def ex_at_sel ex_sel ex_instrs_at)
       (simp add: ex_at_def ex_state_def ex_instrs_at)
  then obtain s7 where s7: "SetBlockEx ex_at 1 AtStart True = Inr s7" ..
  have "\<exists>s'. SetBlock ex_at 1 = Inr s'"
    by (simp add: SetBlock_def SetBlockEx_def AtEnd_def writeLog_frame ex_at_sel ex_sel)
  then obtain s8 where s8: "SetBlock ex_at 1 = Inr s8" ..
  from current_block_changed_only_by_SetBlock
    [of ex_at 2 s1 "ex_val 1" 2 3 s2 ex_chk "[ex_val 5]" s3 "ex_val 7" ex_tuple 1 r s4
        "ex_val 8" "[ex_val 9]" "Basic ''int''" ex_callback ex_phi "[0, 1]" s5
        1 AtStart s6 s7 s8]
    s1 s2 s3 s4 s5 s6 s7 s8 ex_callback_keeps(2)
  show ?thesis
    by (simp add: ex_at_sel)
qed

section \<open>Function mismatch and invalid positions\<close>

lemma AddIncoming_one:
  assumes "f 0 b s = Inr (e, s1)" "instrs s1 n = Some ins" "ibody ins = IPHI t inc"
    "impl p = Inst n"
  shows "AddIncoming s p [b] f =
    Inr (s1\<lparr>instrs := (instrs s1)(n \<mapsto> ins\<lparr>ibody := IPHI t (inc @ [(impl e, last_bb (heap s b))])\<rparr>)\<rparr>)"
  using assms
  by (simp add: AddIncoming_def llvmPredBlocks_def Value_AddIncoming_def)

text \<open>
  C2 (amended). SetBlockEx, SetBlock, Jump and If, given a block whose
  function is not the function of the builder, panic with "mismatched
  function"; for If this holds for either of its two blocks. AddIncoming
  compares no functions: with such a block as predecessor it succeeds whenever
  its callback does and the phi node exists.
\<close>

theorem function_mismatch_aborts:
  assumes "faddr (Func s) \<noteq> faddr (fn (heap s b))"
  shows "SetBlockEx s b pos setBlk = Inl (GoPanic ''mismatched function'') \<and>
         SetBlock s b = Inl (GoPanic ''mismatched function'') \<and>
         Jump s b = Inl (GoPanic ''mismatched function'') \<and>
         If_stmt s c b e = Inl (GoPanic ''mismatched function'') \<and>
         If_stmt s c t b = Inl (GoPanic ''mismatched function'') \<and>
         (f 0 b s = Inr (x, s1) \<and> instrs s1 n = Some ins \<and> ibody ins = IPHI ty inc \<and>
          impl p = Inst n \<longrightarrow>
            AddIncoming s p [b] f =
              Inr (s1\<lparr>instrs := (instrs s1)(n \<mapsto>
                      ins\<lparr>ibody := IPHI ty (inc @ [(impl x, last_bb (heap s b))])\<rparr>)\<rparr>))"
  using assms
  by (auto simp: SetBlockEx_def SetBlock_def Jump_def If_stmt_def writeLog_frame
           intro: AddIncoming_one)

theorem function_mismatch_aborts_witness:
  "faddr (Func ex_at) \<noteq> faddr (fn (heap ex_at 9)) \<and>
   SetBlockEx ex_at 9 AtEnd True = Inl (GoPanic ''mismatched function'') \<and>
   SetBlock ex_at 9 = Inl (GoPanic ''mismatched function'') \<and>
   Jump ex_at 9 = Inl (GoPanic ''mismatched function'') \<and>
   If_stmt ex_at (ex_val 1) 9 0 = Inl (GoPanic ''mismatched function'') \<and>
   If_stmt ex_at (ex_val 1) 0 9 = Inl (GoPanic ''mismatched function'') \<and>
   AddIncoming ex_at ex_phi [9] ex_callback =
     Inr (ex_at\<lparr>instrs := (instrs ex_at)(14 \<mapsto>
            \<lparr>iparent = Some 1, iname = [],
             ibody = IPHI (LL (Basic ''int'')) [(Const 40, 9)]\<rparr>)\<rparr>)"
proof -
  have a: "faddr (Func ex_at) \<noteq> faddr (fn (heap ex_at 9))"
    by (simp add: ex_at_sel ex_sel ex_funs)
  have f: "ex_callback 0 9 ex_at = Inr (ex_val 40, ex_at)"
    by (simp add: ex_callback_def)
  have i: "instrs ex_at 14 =
      Some \<lparr>iparent = Some 1, iname = [], ibody = IPHI (LL (Basic ''int'')) []\<rparr>"
    by (simp add: ex_at_sel ex_instrs_at)
  have p: "impl ex_phi = Inst 14"
    by (simp add: ex_phi_def)
  from function_mismatch_aborts [OF a, where pos = AtEnd and setBlk = True and c = "ex_val 1"
      and e = 0 and t = 0 and f = ex_callback and x = "ex_val 40" and ?s1.0 = ex_at and n = 14
      and ins = "\<lparr>iparent = Some 1, iname = [], ibody = IPHI (LL (Basic ''int'')) []\<rparr>"
      and ty = "LL (Basic ''int'')" and inc = "[]" and p = ex_phi] a f i p
  show ?thesis
    by (simp add: ex_val_def ex_at_sel ex_sel)
qed

text \<open>
  The claim as stated fails for AddIncoming: block 9 belongs to another
  function than the builder's, and AddIncoming with it as predecessor returns
  with the edge added.
\<close>

theorem AddIncoming_mismatch_counterexample:
  "faddr (Func ex_at) \<noteq> faddr (Parent ex_at 9) \<and>
   AddIncoming ex_at ex_phi [9] ex_callback =
     Inr (ex_at\<lparr>instrs := ex_instrs(14 \<mapsto>
            \<lparr>iparent = Some 1, iname = [],
             ibody = IPHI (LL (Basic ''int'')) [(Const 40, 9)]\<rparr>)\<rparr>)"
  by (simp add: AddIncoming_def llvmPredBlocks_def Value_AddIncoming_def Parent_def
      ex_callback_def ex_phi_def ex_val_def ex_at_sel ex_sel ex_funs ex_instrs_at)

text \<open>
  C8. For a position that is none of AtEnd, AtStart, BeforeLast and
  afterInit, SetBlockEx panics for every block: with "SetBlockEx: invalid pos",
  or, when the block belongs to another function, already with "mismatched
  function". It neither positions the builder nor returns.
\<close>

theorem invalid_pos_aborts:
  assumes "pos \<noteq> AtEnd" "pos \<noteq> AtStart" "pos \<noteq> BeforeLast" "pos \<noteq> afterInit"
  shows "SetBlockEx s b pos setBlk =
           Inl (GoPanic (if faddr (Func s) \<noteq> faddr (fn (heap s b))
                         then ''mismatched function'' else ''SetBlockEx: invalid pos''))"
  using assms by (simp add: SetBlockEx_def)

theorem invalid_pos_aborts_witness:
  "SetBlockEx ex_at 0 4 True = Inl (GoPanic ''SetBlockEx: invalid pos'') \<and>
   SetBlockEx ex_at 0 (- 1) False = Inl (GoPanic ''SetBlockEx: invalid pos'') \<and>
   SetBlockEx ex_at 9 4 True = Inl (GoPanic ''mismatched function'')"
  using invalid_pos_aborts [of 4 ex_at 0 True] invalid_pos_aborts [of "- 1" ex_at 0 False]
    invalid_pos_aborts [of 4 ex_at 9 True]
  by (simp add: AtEnd_def AtStart_def BeforeLast_def afterInit_def ex_at_sel ex_sel ex_funs)

section \<open>What is emitted\<close>

lemma insertBefore_split:
  "insertBefore k n xs = takeWhile (\<lambda>x. x \<noteq> k) xs @ [n] @ dropWhile (\<lambda>x. x \<noteq> k) xs"
  by (induction xs) auto

lemma insertBefore_twice:
  assumes "n \<noteq> k"
  shows "insertBefore k m (insertBefore k n xs) =
           takeWhile (\<lambda>x. x \<noteq> k) xs @ [n, m] @ dropWhile (\<lambda>x. x \<noteq> k) xs"
  using assms by (induction xs) auto

lemma InsertInstr_effect:
  "instrs (InsertInstr i s) =
     (instrs s)(nextId s \<mapsto> \<lparr>iparent = parentAt (insertPt s), iname = [], ibody = i\<rparr>)"
  "blocks (InsertInstr i s) = placedIn (insertPt s) [nextId s] (blocks s)"
  "nextId (InsertInstr i s) = Suc (nextId s)"
  by (simp_all add: InsertInstr_def Let_def placedIn_def parentAt_def insertBefore_split
               split: InsertPt.splits)

lemma placedIn_twice:
  assumes "case pt of Before bb k \<Rightarrow> n \<noteq> k | _ \<Rightarrow> True"
  shows "placedIn pt [m] (placedIn pt [n] bls) = placedIn pt [n, m] bls"
proof (cases pt)
  case NoInsertPt
  then show ?thesis by (simp add: placedIn_def)
next
  case (EndOf bb)
  then show ?thesis by (simp add: placedIn_def)
next
  case (Before bb k)
  with assms have nk: "n \<noteq> k" by simp
  have "insertBefore k m (insertBefore k n (bls bb)) =
          takeWhile (\<lambda>x. x \<noteq> k) (bls bb) @ [n, m] @ dropWhile (\<lambda>x. x \<noteq> k) (bls bb)"
    using nk by (rule insertBefore_twice)
  then show ?thesis
    using Before by (simp add: placedIn_def insertBefore_split)
qed

text \<open>
  C4. Panic creates exactly two instructions: a call of the runtime function
  TracePanic with the value as its only argument, and an unreachable. They
  stand at the insertion point, the call immediately before the unreachable,
  and nothing else is created or moved. The call itself is emitted by
  Builder.Call, which is modelled from the specification.
\<close>

theorem Panic_emits_call_then_unreachable:
  assumes "cursor_exists s"
  shows "blocks (Panic s v) = placedIn (insertPt s) [nextId s, Suc (nextId s)] (blocks s) \<and>
         instrs (Panic s v) =
           (instrs s)
             (nextId s \<mapsto> \<lparr>iparent = parentAt (insertPt s), iname = [],
                             ibody = ICall (impl (rtFunc (Pkg s) ''TracePanic'')) [impl v]\<rparr>,
              Suc (nextId s) \<mapsto> \<lparr>iparent = parentAt (insertPt s), iname = [],
                                   ibody = IUnreachable\<rparr>) \<and>
         nextId (Panic s v) = nextId s + 2 \<and>
         insertPt (Panic s v) = insertPt s"
proof -
  let ?s0 = "writeLog (LogPanic (impl v)) s"
  let ?s1 = "Call ?s0 (rtFunc (Pkg s) ''TracePanic'') [v]"
  have p: "Panic s v = InsertInstr IUnreachable ?s1"
    by (simp add: Panic_def CreateUnreachable_def)
  have s1: "instrs ?s1 = (instrs s)(nextId s \<mapsto> \<lparr>iparent = parentAt (insertPt s), iname = [],
              ibody = ICall (impl (rtFunc (Pkg s) ''TracePanic'')) [impl v]\<rparr>)"
    "blocks ?s1 = placedIn (insertPt s) [nextId s] (blocks s)"
    "nextId ?s1 = Suc (nextId s)" "insertPt ?s1 = insertPt s"
    by (simp_all add: Call_def InsertInstr_effect InsertInstr_frame writeLog_frame)
  have c: "case insertPt s of Before bb k \<Rightarrow> nextId s \<noteq> k | _ \<Rightarrow> True"
    using assms by (auto simp: cursor_exists_def split: InsertPt.splits)
  show ?thesis
    unfolding p
    by (simp add: InsertInstr_effect InsertInstr_frame s1 placedIn_twice [OF c])
qed


theorem Panic_emits_call_then_unreachable_witness:
  "blocks (Panic ex_at (ex_val 7)) 0 = [10, 11, 12, 20, 21, 13] \<and>
   instrs (Panic ex_at (ex_val 7)) 20 =
     Some \<lparr>iparent = Some 0, iname = [], ibody = ICall (Global ''TracePanic'') [Const 7]\<rparr> \<and>
   instrs (Panic ex_at (ex_val 7)) 21 =
     Some \<lparr>iparent = Some 0, iname = [], ibody = IUnreachable\<rparr> \<and>
   nextId (Panic ex_at (ex_val 7)) = 22"
proof -
  have c: "cursor_exists ex_at"
    by (simp add: cursor_exists_def ex_at_sel)
  from Panic_emits_call_then_unreachable [OF c, of "ex_val 7"] show ?thesis
    by (simp add: placedIn_def parentAt_def ex_at_sel ex_val_def)
       (simp add: ex_at_def ex_state_def)
qed




text \<open>
  C7. Go leaves the backend exactly as Call with the same function and
  arguments does: the same instructions, blocks, next identity and insertion
  point. The two differ in the log line alone, written when debugInstr is
  set.
\<close>

theorem Go_emits_as_Call:
  "instrs (Go s f args) = instrs (Call s f args) \<and>
   blocks (Go s f args) = blocks (Call s f args) \<and>
   nextId (Go s f args) = nextId (Call s f args) \<and>
   insertPt (Go s f args) = insertPt (Call s f args) \<and>
   Go s f args =
     (Call s f args)\<lparr>logged := if debugInstr s then logged s @ [LogCall ''Go'' f args]
                                else logged s\<rparr>"
  by (simp add: Go_def Call_def InsertInstr_def writeLog_def Let_def split: InsertPt.splits)

theorem Go_emits_as_Call_witness:
  "blocks (Go ex_at (ex_val 8) [ex_val 9]) 0 = [10, 11, 12, 20, 13] \<and>
   blocks (Call ex_at (ex_val 8) [ex_val 9]) 0 = [10, 11, 12, 20, 13] \<and>
   instrs (Go ex_at (ex_val 8) [ex_val 9]) 20 = instrs (Call ex_at (ex_val 8) [ex_val 9]) 20 \<and>
   instrs (Call ex_at (ex_val 8) [ex_val 9]) 20 =
     Some \<lparr>iparent = Some 0, iname = [], ibody = ICall (Const 8) [Const 9]\<rparr>"
proof -
  have c: "blocks (Call ex_at (ex_val 8) [ex_val 9]) 0 = [10, 11, 12, 20, 13] \<and>
    instrs (Call ex_at (ex_val 8) [ex_val 9]) 20 =
      Some \<lparr>iparent = Some 0, iname = [], ibody = ICall (Const 8) [Const 9]\<rparr>"
    by (simp add: Call_def InsertInstr_def ex_at_def ex_state_def ex_val_def)
  from Go_emits_as_Call [of ex_at "ex_val 8" "[ex_val 9]"] c show ?thesis
    by simp
qed

text \<open>
  C5. AddIncoming with the predecessors B1 and B2, whose callback yields e1
  and then e2, appends to the incoming edges of the phi node exactly the two
  edges (e1, last of B1) and (e2, last of B2), each value against the last
  physical block of its predecessor as it was when AddIncoming was called. For
  a phi node without edges, as Phi creates it, the set of edges is then
  exactly these two.
\<close>

theorem AddIncoming_two_preds:
  assumes f1: "f 0 B1 s = Inr (e1, s1)"
    and f2: "f 1 B2 s1 = Inr (e2, s2)"
    and p: "impl p = Inst n"
    and phi: "instrs s2 n = Some ins" "ibody ins = IPHI t inc"
  shows "\<exists>s'. AddIncoming s p [B1, B2] f = Inr s' \<and>
           s' = s2\<lparr>instrs := (instrs s2)(n \<mapsto> ins\<lparr>ibody := IPHI t
                  (inc @ [(impl e1, last_bb (heap s B1)), (impl e2, last_bb (heap s B2))])\<rparr>)\<rparr> \<and>
           incoming s' n =
             inc @ [(impl e1, last_bb (heap s B1)), (impl e2, last_bb (heap s B2))] \<and>
           set (incoming s' n) =
             set inc \<union> {(impl e1, last_bb (heap s B1)), (impl e2, last_bb (heap s B2))}"
proof -
  let ?new = "[(impl e1, last_bb (heap s B1)), (impl e2, last_bb (heap s B2))]"
  let ?s' = "s2\<lparr>instrs := (instrs s2)(n \<mapsto> ins\<lparr>ibody := IPHI t (inc @ ?new)\<rparr>)\<rparr>"
  have v: "AddIncoming_vals f 0 [B1, B2] s = Inr ([impl e1, impl e2], s2)"
    using f1 f2 by simp
  have a: "AddIncoming s p [B1, B2] f = Inr ?s'"
    using v p phi by (simp add: AddIncoming_def llvmPredBlocks_def Value_AddIncoming_def)
  have i: "incoming ?s' n = inc @ ?new"
    by (simp add: incoming_def)
  show ?thesis
    using a i by auto
qed

theorem AddIncoming_two_preds_witness:
  "\<exists>s'. AddIncoming ex_at ex_phi [0, 1] ex_callback = Inr s' \<and>
         incoming s' 14 = [(Const 40, 0), (Const 41, 1)] \<and>
         set (incoming s' 14) = {(Const 40, 0), (Const 41, 1)}"
proof -
  have f1: "ex_callback 0 0 ex_at = Inr (ex_val 40, ex_at)"
    and f2: "ex_callback 1 1 ex_at = Inr (ex_val 41, ex_at)"
    by (simp_all add: ex_callback_def)
  have p: "impl ex_phi = Inst 14" by (simp add: ex_phi_def)
  have phi: "instrs ex_at 14 = Some \<lparr>iparent = Some 1, iname = [],
      ibody = IPHI (LL (Basic ''int'')) []\<rparr>"
    by (simp add: ex_at_sel ex_instrs_at)
  have b: "ibody \<lparr>iparent = Some 1, iname = [], ibody = IPHI (LL (Basic ''int'')) []\<rparr> =
      IPHI (LL (Basic ''int'')) []"
    by simp
  from AddIncoming_two_preds [of ex_callback 0 ex_at _ _ 1, OF f1 f2 p phi b] show ?thesis
    by (simp add: ex_val_def ex_at_sel ex_sel)
qed

end
